theory Spec2Isabelle
  imports Main "HOL-Library.Word"
begin

unbundle bit_operations_syntax

section \<open>The mkfifo utility (src/mkfifo.c)\<close>

subsection \<open>Constants of the C library\<close>

text \<open>
  \<open>mode_t\<close> is an unsigned 32-bit integer. The permission bits of \<open><sys/stat.h>\<close> have
  the values POSIX fixes for them (octal 0400, 0200, 040, 020, 04, 02), and the exit
  codes of \<open><stdlib.h>\<close> are 0 and 1.
\<close>

type_synonym mode_t = "32 word"

definition EXIT_SUCCESS :: int where "EXIT_SUCCESS = 0"
definition EXIT_FAILURE :: int where "EXIT_FAILURE = 1"

definition S_IRUSR :: mode_t where "S_IRUSR = 256"
definition S_IWUSR :: mode_t where "S_IWUSR = 128"
definition S_IRGRP :: mode_t where "S_IRGRP = 32"
definition S_IWGRP :: mode_t where "S_IWGRP = 16"
definition S_IROTH :: mode_t where "S_IROTH = 4"
definition S_IWOTH :: mode_t where "S_IWOTH = 2"

text \<open>An octal numeral, most significant digit first: \<open>octal [6, 6, 6]\<close> is C's \<open>0666\<close>.\<close>

definition octal :: "nat list \<Rightarrow> mode_t" where
  "octal ds = word_of_nat (foldl (\<lambda>acc d. 8 * acc + d) 0 ds)"

subsection \<open>The context and the process around it\<close>

text \<open>\<open>struct mkfifo_ctx\<close>: the exit status and the permissions handed to \<open>mkfifo()\<close>.\<close>

record mkfifo_ctx =
  status_code :: int
  mode :: mode_t

text \<open>
  A line on standard error: \<open>vwarn\<close> appends the text of \<open>errno\<close> to the formatted
  message, \<open>vwarnx\<close> prints the message alone.
\<close>

datatype diagnostic = Vwarn string | Vwarnx string

text \<open>
  One call of \<open>mkfifo()\<close> as the operating system sees it: the path, the mode argument,
  the file creation mask of the process at that moment, and the value returned.
\<close>

record mkfifo_call =
  call_path :: string
  call_mode :: mode_t
  call_umask :: mode_t
  call_ret :: int

text \<open>
  What the program acts on outside its own variables: the file system (of any type
  \<open>'fs\<close>), the file creation mask of the process, the calls of \<open>mkfifo()\<close> made so far,
  in order, and the lines written to standard error, in order.
\<close>

record 'fs world =
  fs :: 'fs
  cmask :: mode_t
  calls :: "mkfifo_call list"
  stderr :: "diagnostic list"

text \<open>
  The library functions the program calls and does not define. \<open>sys_mkfifo\<close> is
  \<open>mkfifo()\<close>: from the file system, the file creation mask, the path and the mode it
  gives the return value and the file system afterwards. \<open>setmode\<close> compiles a mode
  string (\<open>None\<close> is the NULL it returns on failure); it consults the file creation mask
  of the process, which is therefore its first argument. \<open>getmode\<close> applies a compiled
  mode to a base mode.
\<close>

record ('fs, 'cm) libc =
  sys_mkfifo :: "'fs \<Rightarrow> mode_t \<Rightarrow> string \<Rightarrow> mode_t \<Rightarrow> int \<times> 'fs"
  setmode :: "mode_t \<Rightarrow> string \<Rightarrow> 'cm option"
  getmode :: "'cm \<Rightarrow> mode_t \<Rightarrow> mode_t"

text \<open>
  \<open>getopt(argc, argv, "m:")\<close> runs in libc. What it hands to the loop of \<open>mkfifo_main\<close>
  is the sequence of its results before the terminating \<open>-1\<close>, each an option
  character (\<open>m\<close>, or \<open>?\<close> for an option it rejects) with the value of \<open>optarg\<close>, and
  the operands \<open>argv[optind .. argc - 1]\<close> it leaves behind.
\<close>

type_synonym getopt_result = "char \<times> string"

subsection \<open>The functions of mkfifo.c\<close>

text \<open>\<open>mkfifo_warn\<close>: set the failure status and print the message.\<close>

definition mkfifo_warn ::
  "mkfifo_ctx \<Rightarrow> bool \<Rightarrow> string \<Rightarrow> 'fs world \<Rightarrow> mkfifo_ctx \<times> 'fs world" where
  "mkfifo_warn ctx errno_msg msg w =
     (ctx\<lparr>status_code := EXIT_FAILURE\<rparr>,
      w\<lparr>stderr := stderr w @ [if errno_msg then Vwarn msg else Vwarnx msg]\<rparr>)"

text \<open>\<open>mkfifo_path\<close>: call \<open>mkfifo(path, ctx->mode)\<close> and warn when it does not return 0.\<close>

definition mkfifo_path ::
  "('fs, 'cm) libc \<Rightarrow> mkfifo_ctx \<Rightarrow> string \<Rightarrow> 'fs world \<Rightarrow> mkfifo_ctx \<times> 'fs world" where
  "mkfifo_path L ctx path w =
     (let (r, fs') = sys_mkfifo L (fs w) (cmask w) path (mode ctx);
          w' = w\<lparr>fs := fs',
                 calls := calls w @ [\<lparr>call_path = path, call_mode = mode ctx,
                                      call_umask = cmask w, call_ret = r\<rparr>]\<rparr>
      in if r \<noteq> 0 then mkfifo_warn ctx True (''cannot create fifo: '' @ path) w'
         else (ctx, w'))"

text \<open>
  \<open>mkfifo_parse_mode\<close>: \<open>umask(0)\<close>, then \<open>setmode(mode_str)\<close>; on NULL warn, otherwise
  store \<open>getmode(compiled_mode, 0666)\<close> in the context.
\<close>

definition mkfifo_parse_mode ::
  "('fs, 'cm) libc \<Rightarrow> mkfifo_ctx \<Rightarrow> string \<Rightarrow> 'fs world \<Rightarrow> mkfifo_ctx \<times> 'fs world" where
  "mkfifo_parse_mode L ctx mode_str w =
     (let w' = w\<lparr>cmask := 0\<rparr>
      in case setmode L (cmask w') mode_str of
           None \<Rightarrow> mkfifo_warn ctx True (''setmode: '' @ mode_str) w'
         | Some compiled_mode \<Rightarrow>
             (ctx\<lparr>mode := getmode L compiled_mode (octal [6, 6, 6])\<rparr>, w'))"

text \<open>
  The \<open>while((c = getopt(...)) != -1)\<close> loop of \<open>mkfifo_main\<close>: \<open>case 'm'\<close> parses the
  mode, \<open>default\<close> sets the failure status; neither leaves the loop.
\<close>

fun getopt_loop ::
  "('fs, 'cm) libc \<Rightarrow> getopt_result list \<Rightarrow> mkfifo_ctx \<Rightarrow> 'fs world
     \<Rightarrow> mkfifo_ctx \<times> 'fs world" where
  "getopt_loop L [] ctx w = (ctx, w)"
| "getopt_loop L ((c, optarg) # rest) ctx w =
     (if c = CHR ''m'' then
        (let (ctx', w') = mkfifo_parse_mode L ctx optarg w in getopt_loop L rest ctx' w')
      else getopt_loop L rest (ctx\<lparr>status_code := EXIT_FAILURE\<rparr>) w)"

text \<open>The \<open>for(i = 0; i < argc; i++)\<close> loop of \<open>mkfifo_main\<close> over the operands.\<close>

fun path_loop ::
  "('fs, 'cm) libc \<Rightarrow> string list \<Rightarrow> mkfifo_ctx \<Rightarrow> 'fs world \<Rightarrow> mkfifo_ctx \<times> 'fs world" where
  "path_loop L [] ctx w = (ctx, w)"
| "path_loop L (p # ps) ctx w =
     (let (ctx', w') = mkfifo_path L ctx p w in path_loop L ps ctx' w')"

text \<open>
  The context after \<open>memset\<close> and the assignment of the default mode, before the first
  call of \<open>getopt\<close>.
\<close>

definition init_ctx :: mkfifo_ctx where
  "init_ctx = \<lparr>status_code = 0,
               mode = S_IRUSR OR S_IWUSR OR S_IRGRP OR S_IWGRP OR S_IROTH OR S_IWOTH\<rparr>"

text \<open>The part of \<open>mkfifo_main\<close> after the option loop, on the operands left by \<open>getopt\<close>.\<close>

definition create_stage ::
  "('fs, 'cm) libc \<Rightarrow> string list \<Rightarrow> mkfifo_ctx \<Rightarrow> 'fs world \<Rightarrow> mkfifo_ctx \<times> 'fs world" where
  "create_stage L operands ctx w =
     (if status_code ctx = 0 then
        (if int (length operands) < 1 then mkfifo_warn ctx False ''missing file...'' w
         else path_loop L operands ctx w)
      else (ctx, w))"

text \<open>\<open>mkfifo_main\<close>: the exit status it returns, and the world it leaves.\<close>

definition mkfifo_main ::
  "('fs, 'cm) libc \<Rightarrow> getopt_result list \<Rightarrow> string list \<Rightarrow> 'fs world \<Rightarrow> int \<times> 'fs world" where
  "mkfifo_main L opts operands w =
     (let (ctx1, w1) = getopt_loop L opts init_ctx w;
          (ctx2, w2) = create_stage L operands ctx1 w1
      in (status_code ctx2, w2))"

text \<open>
  A process at its start: a file system, the file creation mask it inherits, no call
  made and nothing printed yet.
\<close>

definition process_start :: "'fs \<Rightarrow> mode_t \<Rightarrow> 'fs world" where
  "process_start fs0 um = \<lparr>fs = fs0, cmask = um, calls = [], stderr = []\<rparr>"

text \<open>
  \<open>main\<close> returns what \<open>mkfifo_main\<close> returns, in a process started on a file system
  \<open>fs0\<close> with the inherited file creation mask \<open>um\<close>.
\<close>

definition main ::
  "('fs, 'cm) libc \<Rightarrow> getopt_result list \<Rightarrow> string list \<Rightarrow> 'fs \<Rightarrow> mode_t
     \<Rightarrow> int \<times> 'fs world" where
  "main L opts operands fs0 um = mkfifo_main L opts operands (process_start fs0 um)"

section \<open>A library to run the program against\<close>

subsection \<open>The mode compiler of the specification\<close>

text \<open>
  Modelled from the spec: \<open>setmode()\<close> and \<open>getmode()\<close>, which mkfifo.c calls and no
  source file defines. Section 4.1 of the specification describes them as
  \<open>compile_mode\<close>: a pure octal numeral (one or more octal digits) is the permission
  value itself; anything else is a comma-separated list of clauses, each made of class
  letters (\<open>u\<close>, \<open>g\<close>, \<open>o\<close>, \<open>a\<close>; none means all three classes), one operator (\<open>+\<close>
  adds, \<open>-\<close> removes, \<open>=\<close> replaces the bits of the classes named) and one or more
  permission letters (\<open>r\<close>, \<open>w\<close>, \<open>x\<close>), applied left to right to a base mode; every
  other string is a parse error. The permission value of a numeral is the nine permission
  bits with the setuid, setgid and sticky bits, so its value as a natural number is at
  most 4095 (octal 7777); a numeral above that is no permission value and a parse error.
\<close>

datatype mode_op = Op_add | Op_remove | Op_set

type_synonym mode_clause = "mode_t \<times> mode_op \<times> mode_t"

datatype compiled_mode = Numeral_mode mode_t | Clause_list "mode_clause list"

definition is_octal_numeral :: "string \<Rightarrow> bool" where
  "is_octal_numeral s = (s \<noteq> [] \<and> list_all (\<lambda>c. c \<in> set ''01234567'') s)"

definition numeral_value :: "string \<Rightarrow> nat" where
  "numeral_value s = foldl (\<lambda>acc c. 8 * acc + (of_char c - 48)) 0 s"

fun split_commas :: "string \<Rightarrow> string list" where
  "split_commas [] = [[]]"
| "split_commas (c # cs) =
     (if c = CHR '','' then [] # split_commas cs
      else (case split_commas cs of [] \<Rightarrow> [[c]] | x # xs \<Rightarrow> (c # x) # xs))"

definition class_bits :: "char \<Rightarrow> mode_t" where
  "class_bits c =
     (if c = CHR ''u'' then octal [7, 0, 0]
      else if c = CHR ''g'' then octal [0, 7, 0]
      else if c = CHR ''o'' then octal [0, 0, 7]
      else octal [7, 7, 7])"

definition perm_bits :: "char \<Rightarrow> mode_t" where
  "perm_bits c =
     (if c = CHR ''r'' then octal [4, 4, 4]
      else if c = CHR ''w'' then octal [2, 2, 2]
      else octal [1, 1, 1])"

definition parse_op :: "char \<Rightarrow> mode_op option" where
  "parse_op c =
     (if c = CHR ''+'' then Some Op_add
      else if c = CHR ''-'' then Some Op_remove
      else if c = CHR ''='' then Some Op_set
      else None)"

definition parse_clause :: "string \<Rightarrow> mode_clause option" where
  "parse_clause s =
     (let cls = takeWhile (\<lambda>c. c \<in> set ''ugoa'') s;
          rest = dropWhile (\<lambda>c. c \<in> set ''ugoa'') s
      in case rest of
           [] \<Rightarrow> None
         | opc # ps \<Rightarrow>
             (case parse_op opc of
                None \<Rightarrow> None
              | Some opr \<Rightarrow>
                  if ps = [] \<or> \<not> list_all (\<lambda>c. c \<in> set ''rwx'') ps then None
                  else
                    (let who = (if cls = [] then octal [7, 7, 7]
                                else foldl (\<lambda>m c. m OR class_bits c) 0 cls)
                     in Some (who, opr, who AND foldl (\<lambda>m c. m OR perm_bits c) 0 ps))))"

fun parse_clauses :: "string list \<Rightarrow> mode_clause list option" where
  "parse_clauses [] = Some []"
| "parse_clauses (s # ss) =
     (case parse_clause s of
        None \<Rightarrow> None
      | Some cl \<Rightarrow> (case parse_clauses ss of None \<Rightarrow> None | Some cls \<Rightarrow> Some (cl # cls)))"

definition compile_mode :: "string \<Rightarrow> compiled_mode option" where
  "compile_mode expr =
     (if is_octal_numeral expr then
        (if numeral_value expr \<le> 4095 then Some (Numeral_mode (word_of_nat (numeral_value expr)))
         else None)
      else map_option Clause_list (parse_clauses (split_commas expr)))"

fun apply_clause :: "mode_t \<Rightarrow> mode_clause \<Rightarrow> mode_t" where
  "apply_clause m (who, Op_add, bits) = m OR bits"
| "apply_clause m (who, Op_remove, bits) = m AND NOT bits"
| "apply_clause m (who, Op_set, bits) = (m AND NOT who) OR bits"

fun apply_mode :: "compiled_mode \<Rightarrow> mode_t \<Rightarrow> mode_t" where
  "apply_mode (Numeral_mode v) base = v"
| "apply_mode (Clause_list cls) base = foldl apply_clause base cls"

subsection \<open>A file system\<close>

text \<open>
  \<open>mkfifo()\<close> as POSIX describes it, on a file system small enough to evaluate: the
  nodes that exist, with their permission bits, and the paths at which nothing can be
  created (a missing directory, no permission). The call fails with \<open>-1\<close> at such a
  path and at a path that exists; otherwise it returns 0 and the new node has the bits
  of the mode argument that the file creation mask does not clear.
\<close>

record sim_fs =
  nodes :: "(string \<times> mode_t) list"
  refused :: "string list"

definition posix_mkfifo :: "sim_fs \<Rightarrow> mode_t \<Rightarrow> string \<Rightarrow> mode_t \<Rightarrow> int \<times> sim_fs" where
  "posix_mkfifo f um path m =
     (if path \<in> set (refused f) \<or> path \<in> set (map fst (nodes f)) then (- 1, f)
      else (0, f\<lparr>nodes := nodes f @ [(path, m AND NOT um)]\<rparr>))"

definition sim_libc :: "(sim_fs, compiled_mode) libc" where
  "sim_libc = \<lparr>sys_mkfifo = posix_mkfifo,
               setmode = (\<lambda>um. compile_mode),
               getmode = apply_mode\<rparr>"

definition empty_fs :: sim_fs where
  "empty_fs = \<lparr>nodes = [], refused = []\<rparr>"

section \<open>Basic facts\<close>

lemma init_ctx_mode: "mode init_ctx = octal [6, 6, 6]"
  by (simp add: init_ctx_def octal_def S_IRUSR_def S_IWUSR_def S_IRGRP_def S_IWGRP_def
      S_IROTH_def S_IWOTH_def)

subsection \<open>Mode parsing and the option loop\<close>

lemma parse_mode_None:
  "setmode L 0 s = None \<Longrightarrow>
   mkfifo_parse_mode L ctx s w =
     (ctx\<lparr>status_code := EXIT_FAILURE\<rparr>,
      w\<lparr>cmask := 0, stderr := stderr w @ [Vwarn (''setmode: '' @ s)]\<rparr>)"
  by (simp add: mkfifo_parse_mode_def mkfifo_warn_def)

lemma parse_mode_Some:
  "setmode L 0 s = Some cm \<Longrightarrow>
   mkfifo_parse_mode L ctx s w = (ctx\<lparr>mode := getmode L cm (octal [6, 6, 6])\<rparr>, w\<lparr>cmask := 0\<rparr>)"
  by (simp add: mkfifo_parse_mode_def)

lemma getopt_loop_append:
  "getopt_loop L (xs @ ys) ctx w =
     (case getopt_loop L xs ctx w of (ctx', w') \<Rightarrow> getopt_loop L ys ctx' w')"
  by (induction L xs ctx w rule: getopt_loop.induct) (auto split: prod.splits)

lemma getopt_loop_frame:
  "calls (snd (getopt_loop L opts ctx w)) = calls w \<and> fs (snd (getopt_loop L opts ctx w)) = fs w"
proof (induction L opts ctx w rule: getopt_loop.induct)
  case (1 L ctx w)
  show ?case by simp
next
  case (2 L c optarg rest ctx w)
  show ?case
  proof (cases "c = CHR ''m''")
    case True
    obtain ctx' w' where st: "mkfifo_parse_mode L ctx optarg w = (ctx', w')"
      by (cases "mkfifo_parse_mode L ctx optarg w")
    have "calls w' = calls w \<and> fs w' = fs w"
      using st by (cases "setmode L 0 optarg") (auto simp: parse_mode_None parse_mode_Some)
    with 2(1)[OF True st[symmetric] refl] True st show ?thesis by simp
  next
    case False
    with 2(2)[OF False] show ?thesis by simp
  qed
qed

lemma getopt_loop_status:
  "status_code (fst (getopt_loop L opts ctx w)) =
     (if \<exists>(c, a) \<in> set opts. c \<noteq> CHR ''m'' \<or> setmode L 0 a = None then EXIT_FAILURE
      else status_code ctx)"
proof (induction L opts ctx w rule: getopt_loop.induct)
  case (1 L ctx w)
  show ?case by simp
next
  case (2 L c optarg rest ctx w)
  show ?case
  proof (cases "c = CHR ''m''")
    case True
    obtain ctx' w' where st: "mkfifo_parse_mode L ctx optarg w = (ctx', w')"
      by (cases "mkfifo_parse_mode L ctx optarg w")
    have "status_code ctx' = (if setmode L 0 optarg = None then EXIT_FAILURE else status_code ctx)"
      using st by (cases "setmode L 0 optarg") (auto simp: parse_mode_None parse_mode_Some)
    with 2(1)[OF True st[symmetric] refl] True st show ?thesis by auto
  next
    case False
    with 2(2)[OF False] show ?thesis by auto
  qed
qed

lemma getopt_loop_cmask:
  "cmask (snd (getopt_loop L opts ctx w)) =
     (if \<exists>(c, a) \<in> set opts. c = CHR ''m'' then 0 else cmask w)"
proof (induction L opts ctx w rule: getopt_loop.induct)
  case (1 L ctx w)
  show ?case by simp
next
  case (2 L c optarg rest ctx w)
  show ?case
  proof (cases "c = CHR ''m''")
    case True
    obtain ctx' w' where st: "mkfifo_parse_mode L ctx optarg w = (ctx', w')"
      by (cases "mkfifo_parse_mode L ctx optarg w")
    have "cmask w' = 0"
      using st by (cases "setmode L 0 optarg") (auto simp: parse_mode_None parse_mode_Some)
    with 2(1)[OF True st[symmetric] refl] True st show ?thesis by auto
  next
    case False
    with 2(2)[OF False] show ?thesis by auto
  qed
qed

lemma getopt_loop_no_m:
  "\<forall>(c, a) \<in> set opts. c \<noteq> CHR ''m'' \<Longrightarrow>
   mode (fst (getopt_loop L opts ctx w)) = mode ctx \<and> snd (getopt_loop L opts ctx w) = w"
  by (induction L opts ctx w rule: getopt_loop.induct) auto

lemma getopt_loop_quiet:
  "\<forall>(c, a) \<in> set opts. c = CHR ''m'' \<and> setmode L 0 a \<noteq> None \<Longrightarrow>
   stderr (snd (getopt_loop L opts ctx w)) = stderr w"
proof (induction L opts ctx w rule: getopt_loop.induct)
  case (1 L ctx w)
  show ?case by simp
next
  case (2 L c optarg rest ctx w)
  from 2(3) have m: "c = CHR ''m''" and ok: "setmode L 0 optarg \<noteq> None"
    and rest: "\<forall>(c, a) \<in> set rest. c = CHR ''m'' \<and> setmode L 0 a \<noteq> None" by auto
  from ok obtain cm where cm: "setmode L 0 optarg = Some cm" by auto
  have st: "mkfifo_parse_mode L ctx optarg w =
      (ctx\<lparr>mode := getmode L cm (octal [6, 6, 6])\<rparr>, w\<lparr>cmask := 0\<rparr>)"
    by (rule parse_mode_Some [OF cm])
  from 2(1)[OF m st[symmetric] refl rest] m st show ?case by simp
qed

subsection \<open>The loop over the operands\<close>

lemma mkfifo_path_step:
  "\<exists>r f'. sys_mkfifo L (fs w) (cmask w) p (mode ctx) = (r, f') \<and>
     mkfifo_path L ctx p w =
       (if r \<noteq> 0 then ctx\<lparr>status_code := EXIT_FAILURE\<rparr> else ctx,
        w\<lparr>fs := f',
          calls := calls w @ [\<lparr>call_path = p, call_mode = mode ctx,
                               call_umask = cmask w, call_ret = r\<rparr>],
          stderr := stderr w @ (if r \<noteq> 0 then [Vwarn (''cannot create fifo: '' @ p)] else [])\<rparr>)"
  by (cases "sys_mkfifo L (fs w) (cmask w) p (mode ctx)")
     (simp add: mkfifo_path_def mkfifo_warn_def)

lemma path_loop_effect:
  "\<exists>ks. calls (snd (path_loop L ps ctx w)) = calls w @ ks
      \<and> map call_path ks = ps
      \<and> (\<forall>k \<in> set ks. call_mode k = mode ctx \<and> call_umask k = cmask w)
      \<and> status_code (fst (path_loop L ps ctx w)) =
          (if \<exists>k \<in> set ks. call_ret k \<noteq> 0 then EXIT_FAILURE else status_code ctx)
      \<and> stderr (snd (path_loop L ps ctx w)) =
          stderr w @ map (\<lambda>k. Vwarn (''cannot create fifo: '' @ call_path k))
                       (filter (\<lambda>k. call_ret k \<noteq> 0) ks)
      \<and> mode (fst (path_loop L ps ctx w)) = mode ctx
      \<and> cmask (snd (path_loop L ps ctx w)) = cmask w"
proof (induction ps arbitrary: ctx w)
  case Nil
  show ?case by simp
next
  case (Cons p ps)
  obtain r f' where sys: "sys_mkfifo L (fs w) (cmask w) p (mode ctx) = (r, f')"
    and step: "mkfifo_path L ctx p w =
       (if r \<noteq> 0 then ctx\<lparr>status_code := EXIT_FAILURE\<rparr> else ctx,
        w\<lparr>fs := f',
          calls := calls w @ [\<lparr>call_path = p, call_mode = mode ctx,
                               call_umask = cmask w, call_ret = r\<rparr>],
          stderr := stderr w @ (if r \<noteq> 0 then [Vwarn (''cannot create fifo: '' @ p)] else [])\<rparr>)"
    using mkfifo_path_step [of L w p ctx] by blast
  define k0 where "k0 = \<lparr>call_path = p, call_mode = mode ctx, call_umask = cmask w, call_ret = r\<rparr>"
  define ctx' where "ctx' = (if r \<noteq> 0 then ctx\<lparr>status_code := EXIT_FAILURE\<rparr> else ctx)"
  define w' where "w' = w\<lparr>fs := f', calls := calls w @ [k0],
          stderr := stderr w @ (if r \<noteq> 0 then [Vwarn (''cannot create fifo: '' @ p)] else [])\<rparr>"
  have unfold: "path_loop L (p # ps) ctx w = path_loop L ps ctx' w'"
    by (simp add: step ctx'_def w'_def k0_def)
  from Cons.IH [of ctx' w'] obtain ks where
    c: "calls (snd (path_loop L ps ctx' w')) = calls w' @ ks" and
    p: "map call_path ks = ps" and
    m: "\<forall>k \<in> set ks. call_mode k = mode ctx' \<and> call_umask k = cmask w'" and
    s: "status_code (fst (path_loop L ps ctx' w')) =
          (if \<exists>k \<in> set ks. call_ret k \<noteq> 0 then EXIT_FAILURE else status_code ctx')" and
    e: "stderr (snd (path_loop L ps ctx' w')) =
          stderr w' @ map (\<lambda>k. Vwarn (''cannot create fifo: '' @ call_path k))
                       (filter (\<lambda>k. call_ret k \<noteq> 0) ks)" and
    md: "mode (fst (path_loop L ps ctx' w')) = mode ctx'" and
    cm: "cmask (snd (path_loop L ps ctx' w')) = cmask w'"
    by blast
  have mode': "mode ctx' = mode ctx" and cmask': "cmask w' = cmask w"
    by (simp_all add: ctx'_def w'_def)
  have k0: "call_path k0 = p" "call_mode k0 = mode ctx" "call_umask k0 = cmask w" "call_ret k0 = r"
    by (simp_all add: k0_def)
  have 1: "calls (snd (path_loop L (p # ps) ctx w)) = calls w @ (k0 # ks)"
    unfolding unfold using c by (simp add: w'_def)
  have 2: "map call_path (k0 # ks) = p # ps"
    using p k0 by simp
  have 3: "\<forall>k \<in> set (k0 # ks). call_mode k = mode ctx \<and> call_umask k = cmask w"
    using m k0 mode' cmask' by simp
  have 4: "status_code (fst (path_loop L (p # ps) ctx w)) =
          (if \<exists>k \<in> set (k0 # ks). call_ret k \<noteq> 0 then EXIT_FAILURE else status_code ctx)"
    unfolding unfold using s k0 by (simp add: ctx'_def)
  have 5: "stderr (snd (path_loop L (p # ps) ctx w)) =
          stderr w @ map (\<lambda>k. Vwarn (''cannot create fifo: '' @ call_path k))
                       (filter (\<lambda>k. call_ret k \<noteq> 0) (k0 # ks))"
    unfolding unfold using e k0 by (simp add: w'_def)
  have 6: "mode (fst (path_loop L (p # ps) ctx w)) = mode ctx"
    unfolding unfold using md mode' by simp
  have 7: "cmask (snd (path_loop L (p # ps) ctx w)) = cmask w"
    unfolding unfold using cm cmask' by simp
  show ?case
    by (rule exI [of _ "k0 # ks"]) (intro conjI 1 2 3 4 5 6 7)
qed

lemma path_loop_append:
  "path_loop L (xs @ ys) ctx w =
     (case path_loop L xs ctx w of (ctx', w') \<Rightarrow> path_loop L ys ctx' w')"
  by (induction xs arbitrary: ctx w) (auto split: prod.splits)

subsection \<open>A whole run\<close>

lemma exit_codes: "EXIT_FAILURE \<noteq> 0" "EXIT_SUCCESS = 0" "EXIT_FAILURE \<noteq> EXIT_SUCCESS"
  by (simp_all add: EXIT_FAILURE_def EXIT_SUCCESS_def)

lemma main_opts_failed:
  assumes "\<exists>(c, a) \<in> set opts. c \<noteq> CHR ''m'' \<or> setmode L 0 a = None"
  shows "main L opts operands fs0 um =
           (EXIT_FAILURE, snd (getopt_loop L opts init_ctx (process_start fs0 um)))"
proof -
  obtain c1 w1 where r: "getopt_loop L opts init_ctx (process_start fs0 um) = (c1, w1)"
    by (cases "getopt_loop L opts init_ctx (process_start fs0 um)")
  have "status_code c1 = EXIT_FAILURE"
    using getopt_loop_status [of L opts init_ctx "process_start fs0 um"] assms r by simp
  then show ?thesis
    by (simp add: main_def mkfifo_main_def r create_stage_def exit_codes)
qed

lemma main_opts_ok:
  assumes "\<not> (\<exists>(c, a) \<in> set opts. c \<noteq> CHR ''m'' \<or> setmode L 0 a = None)"
    and "getopt_loop L opts init_ctx (process_start fs0 um) = (c1, w1)"
  shows "status_code c1 = 0"
    and "operands = [] \<Longrightarrow> main L opts operands fs0 um =
           (EXIT_FAILURE, w1\<lparr>stderr := stderr w1 @ [Vwarnx ''missing file...'']\<rparr>)"
    and "operands \<noteq> [] \<Longrightarrow> main L opts operands fs0 um =
           (status_code (fst (path_loop L operands c1 w1)), snd (path_loop L operands c1 w1))"
proof -
  show s: "status_code c1 = 0"
    using getopt_loop_status [of L opts init_ctx "process_start fs0 um"] assms
    by (simp add: init_ctx_def)
  show "operands = [] \<Longrightarrow> main L opts operands fs0 um =
           (EXIT_FAILURE, w1\<lparr>stderr := stderr w1 @ [Vwarnx ''missing file...'']\<rparr>)"
    using s by (simp add: main_def mkfifo_main_def assms(2) create_stage_def mkfifo_warn_def)
  show "operands \<noteq> [] \<Longrightarrow> main L opts operands fs0 um =
           (status_code (fst (path_loop L operands c1 w1)), snd (path_loop L operands c1 w1))"
    using s by (cases operands)
      (simp_all add: main_def mkfifo_main_def assms(2) create_stage_def split: prod.splits)
qed

lemma start_fields:
  "fs (process_start fs0 um) = fs0" "cmask (process_start fs0 um) = um"
  "calls (process_start fs0 um) = []" "stderr (process_start fs0 um) = []"
  by (simp_all add: process_start_def)

lemma main_no_attempts:
  assumes "(\<exists>(c, a) \<in> set opts. c \<noteq> CHR ''m'' \<or> setmode L 0 a = None) \<or> operands = []"
  shows "fst (main L opts operands fs0 um) = EXIT_FAILURE"
    and "calls (snd (main L opts operands fs0 um)) = []"
    and "fs (snd (main L opts operands fs0 um)) = fs0"
proof -
  obtain c1 w1 where r: "getopt_loop L opts init_ctx (process_start fs0 um) = (c1, w1)"
    by (cases "getopt_loop L opts init_ctx (process_start fs0 um)")
  have w1: "calls w1 = []" "fs w1 = fs0"
    using getopt_loop_frame [of L opts init_ctx "process_start fs0 um"] r
    by (simp_all add: start_fields)
  have "main L opts operands fs0 um = (EXIT_FAILURE, w1)
      \<or> main L opts operands fs0 um =
           (EXIT_FAILURE, w1\<lparr>stderr := stderr w1 @ [Vwarnx ''missing file...'']\<rparr>)"
  proof (cases "\<exists>(c, a) \<in> set opts. c \<noteq> CHR ''m'' \<or> setmode L 0 a = None")
    case True
    then show ?thesis by (simp add: main_opts_failed r)
  next
    case False
    with assms have "operands = []" by simp
    then show ?thesis by (simp add: main_opts_ok(2) [OF False r])
  qed
  then show "fst (main L opts operands fs0 um) = EXIT_FAILURE"
    and "calls (snd (main L opts operands fs0 um)) = []"
    and "fs (snd (main L opts operands fs0 um)) = fs0"
    using w1 by auto
qed

lemma main_attempts:
  assumes ok: "\<not> (\<exists>(c, a) \<in> set opts. c \<noteq> CHR ''m'' \<or> setmode L 0 a = None)"
    and ne: "operands \<noteq> []"
    and r: "getopt_loop L opts init_ctx (process_start fs0 um) = (c1, w1)"
  shows "map call_path (calls (snd (main L opts operands fs0 um))) = operands"
    and "\<forall>k \<in> set (calls (snd (main L opts operands fs0 um))).
           call_mode k = mode c1 \<and> call_umask k = cmask w1"
    and "fst (main L opts operands fs0 um) =
           (if \<exists>k \<in> set (calls (snd (main L opts operands fs0 um))). call_ret k \<noteq> 0
            then EXIT_FAILURE else EXIT_SUCCESS)"
    and "stderr (snd (main L opts operands fs0 um)) =
           map (\<lambda>k. Vwarn (''cannot create fifo: '' @ call_path k))
             (filter (\<lambda>k. call_ret k \<noteq> 0) (calls (snd (main L opts operands fs0 um))))"
    and "cmask (snd (main L opts operands fs0 um)) = cmask w1"
proof -
  have c1: "status_code c1 = 0" by (rule main_opts_ok(1) [OF ok r])
  have w1: "calls w1 = []"
    using getopt_loop_frame [of L opts init_ctx "process_start fs0 um"] r
    by (simp add: start_fields)
  have "\<forall>(c, a) \<in> set opts. c = CHR ''m'' \<and> setmode L 0 a \<noteq> None"
    using ok by (auto simp: case_prod_beta)
  then have e1: "stderr w1 = []"
    using getopt_loop_quiet [of opts L init_ctx "process_start fs0 um"] r
    by (simp add: start_fields)
  have m: "main L opts operands fs0 um =
           (status_code (fst (path_loop L operands c1 w1)), snd (path_loop L operands c1 w1))"
    by (rule main_opts_ok(3) [OF ok r ne])
  from path_loop_effect [of L operands c1 w1] obtain ks where
    k: "calls (snd (path_loop L operands c1 w1)) = calls w1 @ ks" and
    p: "map call_path ks = operands" and
    a: "\<forall>k \<in> set ks. call_mode k = mode c1 \<and> call_umask k = cmask w1" and
    s: "status_code (fst (path_loop L operands c1 w1)) =
          (if \<exists>k \<in> set ks. call_ret k \<noteq> 0 then EXIT_FAILURE else status_code c1)" and
    e: "stderr (snd (path_loop L operands c1 w1)) =
          stderr w1 @ map (\<lambda>k. Vwarn (''cannot create fifo: '' @ call_path k))
                       (filter (\<lambda>k. call_ret k \<noteq> 0) ks)" and
    cm: "cmask (snd (path_loop L operands c1 w1)) = cmask w1"
    by blast
  have ks: "calls (snd (main L opts operands fs0 um)) = ks"
    using k w1 by (simp add: m)
  show "map call_path (calls (snd (main L opts operands fs0 um))) = operands"
    unfolding ks by (rule p)
  show "\<forall>k \<in> set (calls (snd (main L opts operands fs0 um))).
           call_mode k = mode c1 \<and> call_umask k = cmask w1"
    unfolding ks by (rule a)
  show "fst (main L opts operands fs0 um) =
           (if \<exists>k \<in> set (calls (snd (main L opts operands fs0 um))). call_ret k \<noteq> 0
            then EXIT_FAILURE else EXIT_SUCCESS)"
    unfolding ks using s c1 by (simp add: m exit_codes)
  show "stderr (snd (main L opts operands fs0 um)) =
           map (\<lambda>k. Vwarn (''cannot create fifo: '' @ call_path k))
             (filter (\<lambda>k. call_ret k \<noteq> 0) (calls (snd (main L opts operands fs0 um))))"
    unfolding ks using e e1 by (simp add: m)
  show "cmask (snd (main L opts operands fs0 um)) = cmask w1"
    using cm by (simp add: m)
qed

lemma parse_mode_status_irrelevant:
  assumes "mode ctx = mode ctx'"
  shows "mode (fst (mkfifo_parse_mode L ctx s w)) = mode (fst (mkfifo_parse_mode L ctx' s w))
       \<and> snd (mkfifo_parse_mode L ctx s w) = snd (mkfifo_parse_mode L ctx' s w)"
  using assms by (cases "setmode L 0 s") (simp_all add: parse_mode_None parse_mode_Some)

lemma getopt_loop_status_irrelevant:
  "mode ctx = mode ctx' \<Longrightarrow>
   mode (fst (getopt_loop L opts ctx w)) = mode (fst (getopt_loop L opts ctx' w))
   \<and> snd (getopt_loop L opts ctx w) = snd (getopt_loop L opts ctx' w)"
proof (induction opts arbitrary: ctx ctx' w)
  case Nil
  then show ?case by simp
next
  case (Cons x opts)
  obtain c a where x: "x = (c, a)" by (cases x)
  show ?case
  proof (cases "c = CHR ''m''")
    case True
    obtain d1 v1 where p1: "mkfifo_parse_mode L ctx a w = (d1, v1)"
      by (cases "mkfifo_parse_mode L ctx a w")
    obtain d2 v2 where p2: "mkfifo_parse_mode L ctx' a w = (d2, v2)"
      by (cases "mkfifo_parse_mode L ctx' a w")
    from parse_mode_status_irrelevant [OF Cons.prems, of L a w] p1 p2
    have "mode d1 = mode d2" and "v1 = v2" by simp_all
    with Cons.IH [of d1 d2 v1] show ?thesis
      by (simp add: x True p1 p2)
  next
    case False
    from Cons.prems have "mode (ctx\<lparr>status_code := EXIT_FAILURE\<rparr>)
        = mode (ctx'\<lparr>status_code := EXIT_FAILURE\<rparr>)" by simp
    from Cons.IH [OF this, of w] show ?thesis
      by (simp add: x False)
  qed
qed

lemma create_stage_cmask: "cmask (snd (create_stage L operands ctx w)) = cmask w"
proof -
  from path_loop_effect [of L operands ctx w]
  have "cmask (snd (path_loop L operands ctx w)) = cmask w" by blast
  then show ?thesis
    by (simp add: create_stage_def mkfifo_warn_def)
qed

lemma main_cmask:
  "cmask (snd (main L opts operands fs0 um)) =
     (if \<exists>(c, a) \<in> set opts. c = CHR ''m'' then 0 else um)"
proof -
  obtain c1 w1 where r: "getopt_loop L opts init_ctx (process_start fs0 um) = (c1, w1)"
    by (cases "getopt_loop L opts init_ctx (process_start fs0 um)")
  have "cmask (snd (main L opts operands fs0 um)) = cmask w1"
    using create_stage_cmask [of L operands c1 w1]
    by (simp add: main_def mkfifo_main_def r case_prod_beta)
  also have "cmask w1 = (if \<exists>(c, a) \<in> set opts. c = CHR ''m'' then 0 else um)"
    using getopt_loop_cmask [of L opts init_ctx "process_start fs0 um"] r
    by (simp add: start_fields)
  finally show ?thesis .
qed

lemma main_calls_umask:
  "\<forall>k \<in> set (calls (snd (main L opts operands fs0 um))).
     call_umask k = (if \<exists>(c, a) \<in> set opts. c = CHR ''m'' then 0 else um)"
proof (cases "(\<exists>(c, a) \<in> set opts. c \<noteq> CHR ''m'' \<or> setmode L 0 a = None) \<or> operands = []")
  case True
  show ?thesis by (simp add: main_no_attempts(2) [OF True])
next
  case False
  then have ok: "\<not> (\<exists>(c, a) \<in> set opts. c \<noteq> CHR ''m'' \<or> setmode L 0 a = None)"
    and ne: "operands \<noteq> []" by simp_all
  obtain c1 w1 where r: "getopt_loop L opts init_ctx (process_start fs0 um) = (c1, w1)"
    by (cases "getopt_loop L opts init_ctx (process_start fs0 um)")
  have "cmask w1 = (if \<exists>(c, a) \<in> set opts. c = CHR ''m'' then 0 else um)"
    using getopt_loop_cmask [of L opts init_ctx "process_start fs0 um"] r
    by (simp add: start_fields)
  with main_attempts(2) [OF ok ne r] show ?thesis by simp
qed

subsection \<open>The runs of the test suite\<close>

lemma octal_values:
  "octal [6, 6, 6] = (438 :: mode_t)" "octal [6, 6, 4] = (436 :: mode_t)"
  "octal [6, 4, 4] = (420 :: mode_t)" "octal [0, 2, 2] = (18 :: mode_t)"
  "octal [1, 2, 3] = (83 :: mode_t)"
  by (simp_all add: octal_def)

lemma compile_abc: "compile_mode ''abc'' = None"
  by (simp add: compile_mode_def is_octal_numeral_def parse_clause_def parse_op_def)

lemma compile_123: "compile_mode ''123'' = Some (Numeral_mode 83)"
  by (simp add: compile_mode_def is_octal_numeral_def numeral_value_def)

lemma sim_fields:
  "sys_mkfifo sim_libc = posix_mkfifo" "setmode sim_libc um = compile_mode"
  "getmode sim_libc = apply_mode"
  by (simp_all add: sim_libc_def)

lemma run_default:
  "main sim_libc [] [''build/fifo''] empty_fs um =
     (0, \<lparr>fs = \<lparr>nodes = [(''build/fifo'', 438 AND NOT um)], refused = []\<rparr>, cmask = um,
          calls = [\<lparr>call_path = ''build/fifo'', call_mode = 438, call_umask = um, call_ret = 0\<rparr>],
          stderr = []\<rparr>)"
  by (simp add: main_def mkfifo_main_def process_start_def init_ctx_mode octal_values
      create_stage_def mkfifo_path_def sim_fields posix_mkfifo_def empty_fs_def
      init_ctx_def S_IRUSR_def S_IWUSR_def S_IRGRP_def S_IWGRP_def S_IROTH_def S_IWOTH_def)


lemma run_two_paths:
  "main sim_libc [] [''build/noexist/test-fifo'', ''build/fifo'']
      \<lparr>nodes = [], refused = [''build/noexist/test-fifo'']\<rparr> 18 =
     (1, \<lparr>fs = \<lparr>nodes = [(''build/fifo'', 420)], refused = [''build/noexist/test-fifo'']\<rparr>,
          cmask = 18,
          calls = [\<lparr>call_path = ''build/noexist/test-fifo'', call_mode = 438, call_umask = 18,
                     call_ret = - 1\<rparr>,
                   \<lparr>call_path = ''build/fifo'', call_mode = 438, call_umask = 18, call_ret = 0\<rparr>],
          stderr = [Vwarn ''cannot create fifo: build/noexist/test-fifo'']\<rparr>)"
  by (simp add: main_def mkfifo_main_def process_start_def octal_values
      create_stage_def mkfifo_path_def mkfifo_warn_def sim_fields posix_mkfifo_def
      init_ctx_def S_IRUSR_def S_IWUSR_def S_IRGRP_def S_IWGRP_def S_IROTH_def S_IWOTH_def
      EXIT_FAILURE_def)

lemma run_fifo_then_noexist:
  "main sim_libc [] [''build/fifo'', ''build/noexist/test-fifo'']
      \<lparr>nodes = [], refused = [''build/noexist/test-fifo'']\<rparr> 18 =
     (1, \<lparr>fs = \<lparr>nodes = [(''build/fifo'', 420)], refused = [''build/noexist/test-fifo'']\<rparr>,
          cmask = 18,
          calls = [\<lparr>call_path = ''build/fifo'', call_mode = 438, call_umask = 18, call_ret = 0\<rparr>,
                   \<lparr>call_path = ''build/noexist/test-fifo'', call_mode = 438, call_umask = 18,
                     call_ret = - 1\<rparr>],
          stderr = [Vwarn ''cannot create fifo: build/noexist/test-fifo'']\<rparr>)"
  by (simp add: main_def mkfifo_main_def process_start_def octal_values
      create_stage_def mkfifo_path_def mkfifo_warn_def sim_fields posix_mkfifo_def
      init_ctx_def S_IRUSR_def S_IWUSR_def S_IRGRP_def S_IWGRP_def S_IROTH_def S_IWOTH_def
      EXIT_FAILURE_def)


subsection \<open>Nodes created on the file system\<close>

lemma sim_path_loop_nodes:
  "\<exists>ks. calls (snd (path_loop sim_libc ps ctx w)) = calls w @ ks
      \<and> nodes (fs (snd (path_loop sim_libc ps ctx w))) =
          nodes (fs w) @ map (\<lambda>k. (call_path k, call_mode k AND NOT (call_umask k)))
                           (filter (\<lambda>k. call_ret k = 0) ks)"
proof (induction ps arbitrary: ctx w)
  case Nil
  show ?case by simp
next
  case (Cons p ps)
  obtain r f' where sys: "sys_mkfifo sim_libc (fs w) (cmask w) p (mode ctx) = (r, f')"
    and step: "mkfifo_path sim_libc ctx p w =
       (if r \<noteq> 0 then ctx\<lparr>status_code := EXIT_FAILURE\<rparr> else ctx,
        w\<lparr>fs := f',
          calls := calls w @ [\<lparr>call_path = p, call_mode = mode ctx,
                               call_umask = cmask w, call_ret = r\<rparr>],
          stderr := stderr w @ (if r \<noteq> 0 then [Vwarn (''cannot create fifo: '' @ p)] else [])\<rparr>)"
    using mkfifo_path_step [of sim_libc w p ctx] by blast
  define k0 where "k0 = \<lparr>call_path = p, call_mode = mode ctx, call_umask = cmask w, call_ret = r\<rparr>"
  define ctx' where "ctx' = (if r \<noteq> 0 then ctx\<lparr>status_code := EXIT_FAILURE\<rparr> else ctx)"
  define w' where "w' = w\<lparr>fs := f', calls := calls w @ [k0],
          stderr := stderr w @ (if r \<noteq> 0 then [Vwarn (''cannot create fifo: '' @ p)] else [])\<rparr>"
  have unfold: "path_loop sim_libc (p # ps) ctx w = path_loop sim_libc ps ctx' w'"
    by (simp add: step ctx'_def w'_def k0_def)
  have f': "nodes f' = nodes (fs w) @ (if r = 0 then [(p, mode ctx AND NOT (cmask w))] else [])"
    using sys by (auto simp: sim_fields posix_mkfifo_def split: if_splits)
  from Cons.IH [of ctx' w'] obtain ks where
    c: "calls (snd (path_loop sim_libc ps ctx' w')) = calls w' @ ks" and
    n: "nodes (fs (snd (path_loop sim_libc ps ctx' w'))) =
          nodes (fs w') @ map (\<lambda>k. (call_path k, call_mode k AND NOT (call_umask k)))
                           (filter (\<lambda>k. call_ret k = 0) ks)"
    by blast
  have 1: "calls (snd (path_loop sim_libc (p # ps) ctx w)) = calls w @ (k0 # ks)"
    unfolding unfold using c by (simp add: w'_def)
  have 2: "nodes (fs (snd (path_loop sim_libc (p # ps) ctx w))) =
          nodes (fs w) @ map (\<lambda>k. (call_path k, call_mode k AND NOT (call_umask k)))
                           (filter (\<lambda>k. call_ret k = 0) (k0 # ks))"
    unfolding unfold using n f' by (simp add: w'_def k0_def)
  show ?case
    by (rule exI [of _ "k0 # ks"]) (intro conjI 1 2)
qed

lemma sim_main_nodes:
  assumes ok: "\<not> (\<exists>(c, a) \<in> set opts. c \<noteq> CHR ''m'' \<or> setmode sim_libc 0 a = None)"
    and ne: "operands \<noteq> []"
  shows "nodes (fs (snd (main sim_libc opts operands f0 um))) =
           nodes f0 @ map (\<lambda>k. (call_path k, call_mode k AND NOT (call_umask k)))
             (filter (\<lambda>k. call_ret k = 0) (calls (snd (main sim_libc opts operands f0 um))))"
proof -
  obtain c1 w1 where r: "getopt_loop sim_libc opts init_ctx (process_start f0 um) = (c1, w1)"
    by (cases "getopt_loop sim_libc opts init_ctx (process_start f0 um)")
  have w1: "calls w1 = []" "fs w1 = f0"
    using getopt_loop_frame [of sim_libc opts init_ctx "process_start f0 um"] r
    by (simp_all add: start_fields)
  have m: "main sim_libc opts operands f0 um =
           (status_code (fst (path_loop sim_libc operands c1 w1)),
            snd (path_loop sim_libc operands c1 w1))"
    by (rule main_opts_ok(3) [OF ok r ne])
  from sim_path_loop_nodes [of operands c1 w1] w1 show ?thesis
    by (auto simp: m)
qed

lemma no_m_calls:
  assumes no: "\<forall>(c, a) \<in> set opts. c \<noteq> CHR ''m''"
  shows "\<forall>k \<in> set (calls (snd (main L opts operands fs0 um))).
           call_mode k = octal [6, 6, 6] \<and> call_umask k = um"
proof -
  from no have n: "\<not> (\<exists>(c, a) \<in> set opts. c = CHR ''m'')"
    by (auto simp: case_prod_beta)
  have u: "\<forall>k \<in> set (calls (snd (main L opts operands fs0 um))). call_umask k = um"
    using main_calls_umask [of L opts operands fs0 um] n by simp
  have m: "\<forall>k \<in> set (calls (snd (main L opts operands fs0 um))). call_mode k = octal [6, 6, 6]"
  proof (cases "(\<exists>(c, a) \<in> set opts. c \<noteq> CHR ''m'' \<or> setmode L 0 a = None) \<or> operands = []")
    case True
    show ?thesis by (simp add: main_no_attempts(2) [OF True])
  next
    case False
    then have ok: "\<not> (\<exists>(c, a) \<in> set opts. c \<noteq> CHR ''m'' \<or> setmode L 0 a = None)"
      and ne: "operands \<noteq> []" by simp_all
    obtain c1 w1 where r: "getopt_loop L opts init_ctx (process_start fs0 um) = (c1, w1)"
      by (cases "getopt_loop L opts init_ctx (process_start fs0 um)")
    have "mode c1 = mode init_ctx"
      using getopt_loop_no_m [OF no, of L init_ctx "process_start fs0 um"] r by simp
    with main_attempts(2) [OF ok ne r] show ?thesis by (simp add: init_ctx_mode)
  qed
  from u m show ?thesis by blast
qed

lemma success_calls:
  assumes s: "fst (main L opts operands fs0 um) = EXIT_SUCCESS"
  shows "\<not> (\<exists>(c, a) \<in> set opts. c \<noteq> CHR ''m'' \<or> setmode L 0 a = None)"
    and "operands \<noteq> []"
    and "map call_path (calls (snd (main L opts operands fs0 um))) = operands"
    and "\<forall>k \<in> set (calls (snd (main L opts operands fs0 um))). call_ret k = 0"
proof -
  have nb: "\<not> ((\<exists>(c, a) \<in> set opts. c \<noteq> CHR ''m'' \<or> setmode L 0 a = None) \<or> operands = [])"
  proof
    assume b: "(\<exists>(c, a) \<in> set opts. c \<noteq> CHR ''m'' \<or> setmode L 0 a = None) \<or> operands = []"
    from main_no_attempts(1) [OF b, of fs0 um] s show False
      by (simp add: exit_codes)
  qed
  then show ok: "\<not> (\<exists>(c, a) \<in> set opts. c \<noteq> CHR ''m'' \<or> setmode L 0 a = None)"
    and ne: "operands \<noteq> []" by simp_all
  obtain c1 w1 where r: "getopt_loop L opts init_ctx (process_start fs0 um) = (c1, w1)"
    by (cases "getopt_loop L opts init_ctx (process_start fs0 um)")
  show "map call_path (calls (snd (main L opts operands fs0 um))) = operands"
    by (rule main_attempts(1) [OF ok ne r])
  from main_attempts(3) [OF ok ne r] s
  show "\<forall>k \<in> set (calls (snd (main L opts operands fs0 um))). call_ret k = 0"
    by (auto simp: exit_codes split: if_splits)
qed

section \<open>Exit status\<close>

text \<open>
  C1. The exit status of every invocation is \<open>EXIT_FAILURE\<close> (1) exactly when \<open>getopt\<close>
  rejected an option, or a \<open>-m\<close> mode string did not compile, or there is no operand, or
  some call of \<open>mkfifo()\<close> failed; otherwise it is \<open>EXIT_SUCCESS\<close> (0). The calls of
  \<open>mkfifo()\<close> are none when an option was rejected or a mode string did not compile, and
  otherwise one for each operand, in the order of the operands: a failure at any operand,
  the last as much as the first, makes the exit status \<open>EXIT_FAILURE\<close>.
\<close>

theorem exit_status_iff:
  "fst (main L opts operands fs0 um) =
     (if (\<exists>(c, a) \<in> set opts. c \<noteq> CHR ''m'')
         \<or> (\<exists>(c, a) \<in> set opts. c = CHR ''m'' \<and> setmode L 0 a = None)
         \<or> operands = []
         \<or> (\<exists>k \<in> set (calls (snd (main L opts operands fs0 um))). call_ret k \<noteq> 0)
      then EXIT_FAILURE else EXIT_SUCCESS)
   \<and> map call_path (calls (snd (main L opts operands fs0 um))) =
     (if (\<exists>(c, a) \<in> set opts. c \<noteq> CHR ''m'')
         \<or> (\<exists>(c, a) \<in> set opts. c = CHR ''m'' \<and> setmode L 0 a = None)
      then [] else operands)"
proof -
  let ?bad = "\<exists>(c, a) \<in> set opts. c \<noteq> CHR ''m'' \<or> setmode L 0 a = None"
  have split: "?bad \<longleftrightarrow> (\<exists>(c, a) \<in> set opts. c \<noteq> CHR ''m'')
         \<or> (\<exists>(c, a) \<in> set opts. c = CHR ''m'' \<and> setmode L 0 a = None)"
    by (auto simp: case_prod_beta)
  show ?thesis
  proof (cases "?bad \<or> operands = []")
    case True
    have s: "fst (main L opts operands fs0 um) = EXIT_FAILURE"
      by (rule main_no_attempts(1) [OF True])
    have "calls (snd (main L opts operands fs0 um)) = []"
      by (rule main_no_attempts(2) [OF True])
    then have p: "map call_path (calls (snd (main L opts operands fs0 um))) = []"
      by simp
    have q: "map call_path (calls (snd (main L opts operands fs0 um))) =
        (if ?bad then [] else operands)"
      using True p by auto
    from True split s have "fst (main L opts operands fs0 um) =
     (if (\<exists>(c, a) \<in> set opts. c \<noteq> CHR ''m'')
         \<or> (\<exists>(c, a) \<in> set opts. c = CHR ''m'' \<and> setmode L 0 a = None)
         \<or> operands = []
         \<or> (\<exists>k \<in> set (calls (snd (main L opts operands fs0 um))). call_ret k \<noteq> 0)
      then EXIT_FAILURE else EXIT_SUCCESS)"
      by presburger
    moreover from q split have "map call_path (calls (snd (main L opts operands fs0 um))) =
     (if (\<exists>(c, a) \<in> set opts. c \<noteq> CHR ''m'')
         \<or> (\<exists>(c, a) \<in> set opts. c = CHR ''m'' \<and> setmode L 0 a = None)
      then [] else operands)"
      by presburger
    ultimately show ?thesis by (rule conjI)
  next
    case False
    then have ok: "\<not> ?bad" and ne: "operands \<noteq> []" by simp_all
    obtain c1 w1 where r: "getopt_loop L opts init_ctx (process_start fs0 um) = (c1, w1)"
      by (cases "getopt_loop L opts init_ctx (process_start fs0 um)")
    from ok split ne main_attempts(3) [OF ok ne r]
    have "fst (main L opts operands fs0 um) =
     (if (\<exists>(c, a) \<in> set opts. c \<noteq> CHR ''m'')
         \<or> (\<exists>(c, a) \<in> set opts. c = CHR ''m'' \<and> setmode L 0 a = None)
         \<or> operands = []
         \<or> (\<exists>k \<in> set (calls (snd (main L opts operands fs0 um))). call_ret k \<noteq> 0)
      then EXIT_FAILURE else EXIT_SUCCESS)"
      by presburger
    moreover from ok split main_attempts(1) [OF ok ne r]
    have "map call_path (calls (snd (main L opts operands fs0 um))) =
     (if (\<exists>(c, a) \<in> set opts. c \<noteq> CHR ''m'')
         \<or> (\<exists>(c, a) \<in> set opts. c = CHR ''m'' \<and> setmode L 0 a = None)
      then [] else operands)"
      by presburger
    ultimately show ?thesis by (rule conjI)
  qed
qed

theorem exit_status_iff_witness:
  "fst (main sim_libc [] [''build/fifo''] empty_fs 18) = EXIT_SUCCESS
   \<and> fst (main sim_libc [(CHR ''m'', ''abc'')] [''build/fifo''] empty_fs 18) = EXIT_FAILURE
   \<and> map call_path (calls (snd (main sim_libc [(CHR ''m'', ''abc'')] [''build/fifo'']
                                  empty_fs 18))) = []
   \<and> fst (main sim_libc [(CHR ''?'', [])] [''build/fifo''] empty_fs 18) = EXIT_FAILURE
   \<and> fst (main sim_libc [] [] empty_fs 18) = EXIT_FAILURE
   \<and> fst (main sim_libc [] [''build/noexist/test-fifo'', ''build/fifo'']
            \<lparr>nodes = [], refused = [''build/noexist/test-fifo'']\<rparr> 18) = EXIT_FAILURE
   \<and> fst (main sim_libc [] [''build/fifo'', ''build/noexist/test-fifo'']
            \<lparr>nodes = [], refused = [''build/noexist/test-fifo'']\<rparr> 18) = EXIT_FAILURE
   \<and> map call_path (calls (snd (main sim_libc [] [''build/fifo'', ''build/noexist/test-fifo'']
            \<lparr>nodes = [], refused = [''build/noexist/test-fifo'']\<rparr> 18)))
       = [''build/fifo'', ''build/noexist/test-fifo'']"
proof -
  have 1: "fst (main sim_libc [] [''build/fifo''] empty_fs 18) = EXIT_SUCCESS"
    using exit_status_iff [of sim_libc "[]" "[''build/fifo'']" empty_fs 18]
    by (simp add: run_default)
  have 2: "fst (main sim_libc [(CHR ''m'', ''abc'')] [''build/fifo''] empty_fs 18) = EXIT_FAILURE
    \<and> map call_path (calls (snd (main sim_libc [(CHR ''m'', ''abc'')] [''build/fifo'']
                                  empty_fs 18))) = []"
    using exit_status_iff [of sim_libc "[(CHR ''m'', ''abc'')]" "[''build/fifo'']" empty_fs 18]
    by (simp add: sim_fields compile_abc)
  have 3: "fst (main sim_libc [(CHR ''?'', [])] [''build/fifo''] empty_fs 18) = EXIT_FAILURE"
    using exit_status_iff [of sim_libc "[(CHR ''?'', [])]" "[''build/fifo'']" empty_fs 18]
    by simp
  have 4: "fst (main sim_libc [] [] empty_fs 18) = EXIT_FAILURE"
    using exit_status_iff [of sim_libc "[]" "[]" empty_fs 18] by simp
  have 5: "fst (main sim_libc [] [''build/noexist/test-fifo'', ''build/fifo'']
            \<lparr>nodes = [], refused = [''build/noexist/test-fifo'']\<rparr> 18) = EXIT_FAILURE"
    using exit_status_iff [of sim_libc "[]" "[''build/noexist/test-fifo'', ''build/fifo'']"
        "\<lparr>nodes = [], refused = [''build/noexist/test-fifo'']\<rparr>" 18]
    by (simp add: run_two_paths)
  have 6: "fst (main sim_libc [] [''build/fifo'', ''build/noexist/test-fifo'']
            \<lparr>nodes = [], refused = [''build/noexist/test-fifo'']\<rparr> 18) = EXIT_FAILURE
    \<and> map call_path (calls (snd (main sim_libc [] [''build/fifo'', ''build/noexist/test-fifo'']
            \<lparr>nodes = [], refused = [''build/noexist/test-fifo'']\<rparr> 18)))
       = [''build/fifo'', ''build/noexist/test-fifo'']"
    using exit_status_iff [of sim_libc "[]" "[''build/fifo'', ''build/noexist/test-fifo'']"
        "\<lparr>nodes = [], refused = [''build/noexist/test-fifo'']\<rparr>" 18]
    by (simp add: run_fifo_then_noexist)
  from 1 2 3 4 5 6 show ?thesis by simp
qed

text \<open>
  C4. When the mode string of some \<open>-m\<close> option does not compile, the exit status is
  \<open>EXIT_FAILURE\<close>, \<open>mkfifo()\<close> is called for no operand at all, and the file system
  is as it was.
\<close>

theorem malformed_mode_prevents_creation:
  assumes "(CHR ''m'', s) \<in> set opts" and "setmode L 0 s = None"
  shows "fst (main L opts operands fs0 um) = EXIT_FAILURE
       \<and> calls (snd (main L opts operands fs0 um)) = []
       \<and> fs (snd (main L opts operands fs0 um)) = fs0"
proof -
  from assms have bad: "(\<exists>(c, a) \<in> set opts. c \<noteq> CHR ''m'' \<or> setmode L 0 a = None)
      \<or> operands = []"
    by (auto intro!: bexI [of _ "(CHR ''m'', s)"])
  show ?thesis
    by (intro conjI main_no_attempts [OF bad])
qed

theorem malformed_mode_prevents_creation_witness:
  "(CHR ''m'', ''abc'') \<in> set [(CHR ''m'', ''abc'')]
   \<and> setmode sim_libc 0 ''abc'' = None
   \<and> fst (main sim_libc [(CHR ''m'', ''abc'')] [''build/fifo'', ''build/fifo-2''] empty_fs 18)
       = EXIT_FAILURE
   \<and> calls (snd (main sim_libc [(CHR ''m'', ''abc'')] [''build/fifo'', ''build/fifo-2'']
                  empty_fs 18)) = []
   \<and> fs (snd (main sim_libc [(CHR ''m'', ''abc'')] [''build/fifo'', ''build/fifo-2'']
               empty_fs 18)) = empty_fs"
proof -
  have h1: "(CHR ''m'', ''abc'') \<in> set [(CHR ''m'', ''abc'')]" by simp
  have h2: "setmode sim_libc 0 ''abc'' = None" by (simp add: sim_fields compile_abc)
  show ?thesis
    using h1 h2 malformed_mode_prevents_creation [OF h1 h2,
        of "[''build/fifo'', ''build/fifo-2'']" empty_fs 18]
    by simp
qed

text \<open>
  C10. A mode string that does not compile leaves the \<open>mode\<close> field as it was and sets
  the failure status: after the failed \<open>-m\<close> the context holds the mode it held before,
  the default or the result of the options before it.
\<close>

theorem failed_parse_keeps_mode:
  assumes "setmode L 0 s = None"
  shows "mode (fst (mkfifo_parse_mode L ctx s w)) = mode ctx
       \<and> status_code (fst (mkfifo_parse_mode L ctx s w)) = EXIT_FAILURE
       \<and> mode (fst (getopt_loop L (pre @ [(CHR ''m'', s)]) ctx w))
           = mode (fst (getopt_loop L pre ctx w))"
proof -
  obtain c1 w1 where r: "getopt_loop L pre ctx w = (c1, w1)"
    by (cases "getopt_loop L pre ctx w")
  have "getopt_loop L (pre @ [(CHR ''m'', s)]) ctx w = mkfifo_parse_mode L c1 s w1"
    by (simp add: getopt_loop_append r split: prod.splits)
  then show ?thesis
    by (simp add: parse_mode_None [OF assms] r)
qed

theorem failed_parse_keeps_mode_witness:
  "setmode sim_libc 0 ''abc'' = None
   \<and> mode (fst (mkfifo_parse_mode sim_libc init_ctx ''abc'' (process_start empty_fs 18)))
       = octal [6, 6, 6]
   \<and> mode (fst (getopt_loop sim_libc ([(CHR ''m'', ''123'')] @ [(CHR ''m'', ''abc'')]) init_ctx
                  (process_start empty_fs 18))) = octal [1, 2, 3]"
proof -
  have h: "setmode sim_libc 0 ''abc'' = None" by (simp add: sim_fields compile_abc)
  have m: "mode (fst (getopt_loop sim_libc [(CHR ''m'', ''123'')] init_ctx
                  (process_start empty_fs 18))) = octal [1, 2, 3]"
    by (simp add: mkfifo_parse_mode_def sim_fields compile_123 octal_def)
  show ?thesis
    using h m failed_parse_keeps_mode [OF h, of init_ctx "process_start empty_fs 18"
        "[(CHR ''m'', ''123'')]"]
    by (simp add: init_ctx_mode)
qed

section \<open>The mode of the calls\<close>

text \<open>
  C2 fails as stated: the run with no \<open>-m\<close> and the operand \<open>build/fifo\<close>, on an empty
  file system under a file creation mask of 0, succeeds, passes the mode 0666 to
  \<open>mkfifo()\<close> and creates the node with 0666, which is neither 0664 nor 0644.
\<close>

theorem default_mode_counterexample:
  "fst (main sim_libc [] [''build/fifo''] empty_fs 0) = EXIT_SUCCESS
   \<and> map call_mode (calls (snd (main sim_libc [] [''build/fifo''] empty_fs 0))) = [octal [6, 6, 6]]
   \<and> nodes (fs (snd (main sim_libc [] [''build/fifo''] empty_fs 0)))
       = [(''build/fifo'', octal [6, 6, 6])]
   \<and> octal [6, 6, 6] \<noteq> octal [6, 6, 4]
   \<and> octal [6, 6, 6] \<noteq> octal [6, 4, 4]"
  by (simp add: run_default EXIT_SUCCESS_def octal_def)

text \<open>
  C2, as the code has it. With no \<open>-m\<close> among the options, every call of \<open>mkfifo()\<close>
  receives the mode 0666 (\<open>rw-rw-rw-\<close>) and is made under the inherited file creation
  mask, whatever the file system; when the run succeeds, the calls are exactly one per
  operand, in order, each with mode 0666, the inherited mask and return value 0. On the
  file system above, a run that succeeds adds one node per operand, in order, whose
  permission bits are the bits of 0666 that the inherited mask does not clear.
\<close>

theorem default_mode_is_0666:
  assumes "\<forall>(c, a) \<in> set opts. c \<noteq> CHR ''m''"
  shows "(\<forall>k \<in> set (calls (snd (main L opts operands fs0 um))).
            call_mode k = octal [6, 6, 6] \<and> call_umask k = um)
       \<and> (fst (main L opts operands fs0 um) = EXIT_SUCCESS \<longrightarrow>
            map (\<lambda>k. (call_path k, call_mode k, call_umask k, call_ret k))
              (calls (snd (main L opts operands fs0 um)))
            = map (\<lambda>p. (p, octal [6, 6, 6], um, 0)) operands)
       \<and> (fst (main sim_libc opts operands f0 um) = EXIT_SUCCESS \<longrightarrow>
            nodes (fs (snd (main sim_libc opts operands f0 um)))
            = nodes f0 @ map (\<lambda>p. (p, octal [6, 6, 6] AND NOT um)) operands)"
proof (intro conjI impI)
  show "\<forall>k \<in> set (calls (snd (main L opts operands fs0 um))).
            call_mode k = octal [6, 6, 6] \<and> call_umask k = um"
    by (rule no_m_calls [OF assms])
next
  assume s: "fst (main L opts operands fs0 um) = EXIT_SUCCESS"
  let ?ks = "calls (snd (main L opts operands fs0 um))"
  have p: "map call_path ?ks = operands" by (rule success_calls(3) [OF s])
  have z: "\<forall>k \<in> set ?ks. call_ret k = 0" by (rule success_calls(4) [OF s])
  have m: "\<forall>k \<in> set ?ks. call_mode k = octal [6, 6, 6] \<and> call_umask k = um"
    by (rule no_m_calls [OF assms])
  have "map (\<lambda>k. (call_path k, call_mode k, call_umask k, call_ret k)) ?ks
      = map (\<lambda>k. (call_path k, octal [6, 6, 6], um, 0)) ?ks"
    using m z by (intro map_cong) auto
  also have "\<dots> = map (\<lambda>p. (p, octal [6, 6, 6], um, 0)) (map call_path ?ks)"
    by (simp add: comp_def)
  finally show "map (\<lambda>k. (call_path k, call_mode k, call_umask k, call_ret k)) ?ks
      = map (\<lambda>p. (p, octal [6, 6, 6], um, 0)) operands"
    by (simp only: p)
next
  assume s: "fst (main sim_libc opts operands f0 um) = EXIT_SUCCESS"
  let ?ks = "calls (snd (main sim_libc opts operands f0 um))"
  have p: "map call_path ?ks = operands" by (rule success_calls(3) [OF s])
  have z: "\<forall>k \<in> set ?ks. call_ret k = 0" by (rule success_calls(4) [OF s])
  have m: "\<forall>k \<in> set ?ks. call_mode k = octal [6, 6, 6] \<and> call_umask k = um"
    by (rule no_m_calls [OF assms])
  from z have f: "filter (\<lambda>k. call_ret k = 0) ?ks = ?ks" by simp
  have "nodes (fs (snd (main sim_libc opts operands f0 um)))
      = nodes f0 @ map (\<lambda>k. (call_path k, call_mode k AND NOT (call_umask k))) ?ks"
    using sim_main_nodes [OF success_calls(1, 2) [OF s], of f0 um] by (simp only: f)
  also have "map (\<lambda>k. (call_path k, call_mode k AND NOT (call_umask k))) ?ks
      = map (\<lambda>k. (call_path k, octal [6, 6, 6] AND NOT um)) ?ks"
    using m by (intro map_cong) auto
  also have "\<dots> = map (\<lambda>p. (p, octal [6, 6, 6] AND NOT um)) (map call_path ?ks)"
    by (simp add: comp_def)
  finally show "nodes (fs (snd (main sim_libc opts operands f0 um)))
      = nodes f0 @ map (\<lambda>p. (p, octal [6, 6, 6] AND NOT um)) operands"
    by (simp only: p)
qed

theorem default_mode_is_0666_witness:
  "fst (main sim_libc [] [''build/fifo''] empty_fs (octal [0, 2, 2])) = EXIT_SUCCESS
   \<and> map (\<lambda>k. (call_path k, call_mode k, call_umask k, call_ret k))
        (calls (snd (main sim_libc [] [''build/fifo''] empty_fs (octal [0, 2, 2]))))
       = [(''build/fifo'', octal [6, 6, 6], octal [0, 2, 2], 0)]
   \<and> nodes (fs (snd (main sim_libc [] [''build/fifo''] empty_fs (octal [0, 2, 2]))))
       = [(''build/fifo'', octal [6, 4, 4])]"
proof -
  have h: "\<forall>(c, a) \<in> set ([] :: getopt_result list). c \<noteq> CHR ''m''" by simp
  have s: "fst (main sim_libc [] [''build/fifo''] empty_fs (octal [0, 2, 2])) = EXIT_SUCCESS"
    by (simp add: run_default EXIT_SUCCESS_def)
  have v: "octal [6, 6, 6] AND NOT (octal [0, 2, 2]) = octal [6, 4, 4]"
    by (simp add: octal_def)
  have e: "nodes empty_fs = []" by (simp add: empty_fs_def)
  note run = default_mode_is_0666 [OF h, of sim_libc "[''build/fifo'']" empty_fs
      "octal [0, 2, 2]" empty_fs]
  from run s have a: "map (\<lambda>k. (call_path k, call_mode k, call_umask k, call_ret k))
        (calls (snd (main sim_libc [] [''build/fifo''] empty_fs (octal [0, 2, 2]))))
       = map (\<lambda>p. (p, octal [6, 6, 6], octal [0, 2, 2], 0)) [''build/fifo'']"
    by blast
  from run s have b: "nodes (fs (snd (main sim_libc [] [''build/fifo''] empty_fs
        (octal [0, 2, 2]))))
       = nodes empty_fs @ map (\<lambda>p. (p, octal [6, 6, 6] AND NOT (octal [0, 2, 2])))
           [''build/fifo'']"
    by blast
  from s a b show ?thesis
    by (simp only: v e list.map append_Nil simp_thms)
qed

section \<open>The loop over the operands\<close>

text \<open>
  C3. When every option is a \<open>-m\<close> whose string compiles and there is at least one
  operand, \<open>mkfifo()\<close> is called once for every operand, in the order of the operands,
  always with the mode and the file creation mask left by the option loop, whatever the
  earlier calls returned. Standard error holds one \<open>cannot create fifo\<close> line for each
  call that failed, in order, and the exit status is \<open>EXIT_FAILURE\<close> exactly when some
  call failed.
\<close>

theorem every_path_attempted_in_order:
  assumes "\<forall>(c, a) \<in> set opts. c = CHR ''m'' \<and> setmode L 0 a \<noteq> None"
    and "operands \<noteq> []"
  shows "map (\<lambda>k. (call_path k, call_mode k, call_umask k))
           (calls (snd (main L opts operands fs0 um)))
         = map (\<lambda>p. (p, mode (fst (getopt_loop L opts init_ctx (process_start fs0 um))),
                        cmask (snd (getopt_loop L opts init_ctx (process_start fs0 um)))))
             operands
       \<and> stderr (snd (main L opts operands fs0 um))
         = map (\<lambda>k. Vwarn (''cannot create fifo: '' @ call_path k))
             (filter (\<lambda>k. call_ret k \<noteq> 0) (calls (snd (main L opts operands fs0 um))))
       \<and> fst (main L opts operands fs0 um)
         = (if \<exists>k \<in> set (calls (snd (main L opts operands fs0 um))). call_ret k \<noteq> 0
            then EXIT_FAILURE else EXIT_SUCCESS)"
proof -
  from assms(1) have ok: "\<not> (\<exists>(c, a) \<in> set opts. c \<noteq> CHR ''m'' \<or> setmode L 0 a = None)"
    by (auto simp: case_prod_beta)
  obtain c1 w1 where r: "getopt_loop L opts init_ctx (process_start fs0 um) = (c1, w1)"
    by (cases "getopt_loop L opts init_ctx (process_start fs0 um)")
  let ?ks = "calls (snd (main L opts operands fs0 um))"
  have p: "map call_path ?ks = operands" by (rule main_attempts(1) [OF ok assms(2) r])
  have m: "\<forall>k \<in> set ?ks. call_mode k = mode c1 \<and> call_umask k = cmask w1"
    by (rule main_attempts(2) [OF ok assms(2) r])
  have "map (\<lambda>k. (call_path k, call_mode k, call_umask k)) ?ks
      = map (\<lambda>k. (call_path k, mode c1, cmask w1)) ?ks"
    using m by (intro map_cong) auto
  also have "\<dots> = map (\<lambda>p. (p, mode c1, cmask w1)) (map call_path ?ks)"
    by (simp add: comp_def)
  finally have 1: "map (\<lambda>k. (call_path k, call_mode k, call_umask k)) ?ks
      = map (\<lambda>p. (p, mode c1, cmask w1)) operands"
    by (simp only: p)
  show ?thesis
    using 1 main_attempts(3, 4) [OF ok assms(2) r] by (simp add: r)
qed

theorem every_path_attempted_in_order_witness:
  "[''build/noexist/test-fifo'', ''build/fifo''] \<noteq> []
   \<and> map (\<lambda>k. (call_path k, call_mode k, call_umask k))
        (calls (snd (main sim_libc [] [''build/noexist/test-fifo'', ''build/fifo'']
                       \<lparr>nodes = [], refused = [''build/noexist/test-fifo'']\<rparr> 18)))
       = [(''build/noexist/test-fifo'', octal [6, 6, 6], 18), (''build/fifo'', octal [6, 6, 6], 18)]
   \<and> stderr (snd (main sim_libc [] [''build/noexist/test-fifo'', ''build/fifo'']
                       \<lparr>nodes = [], refused = [''build/noexist/test-fifo'']\<rparr> 18))
       = [Vwarn ''cannot create fifo: build/noexist/test-fifo'']
   \<and> fst (main sim_libc [] [''build/noexist/test-fifo'', ''build/fifo'']
                       \<lparr>nodes = [], refused = [''build/noexist/test-fifo'']\<rparr> 18)
       = EXIT_FAILURE"
proof -
  have h1: "\<forall>(c, a) \<in> set ([] :: getopt_result list).
      c = CHR ''m'' \<and> setmode sim_libc 0 a \<noteq> None" by simp
  have h2: "[''build/noexist/test-fifo'', ''build/fifo''] \<noteq> []" by simp
  have c: "calls (snd (main sim_libc [] [''build/noexist/test-fifo'', ''build/fifo'']
                       \<lparr>nodes = [], refused = [''build/noexist/test-fifo'']\<rparr> 18))
     = [\<lparr>call_path = ''build/noexist/test-fifo'', call_mode = 438, call_umask = 18,
                     call_ret = - 1\<rparr>,
        \<lparr>call_path = ''build/fifo'', call_mode = 438, call_umask = 18, call_ret = 0\<rparr>]"
    by (simp add: run_two_paths)
  show ?thesis
    using h2 every_path_attempted_in_order [OF h1 h2, of
        "\<lparr>nodes = [], refused = [''build/noexist/test-fifo'']\<rparr>" 18]
    by (simp add: c start_fields init_ctx_mode)
qed

section \<open>No operand\<close>

text \<open>
  C5 fails as stated: with no option and no operand the line printed is
  \<open>missing file...\<close>, not \<open>missing file operand\<close>; and with no operand after an option
  that \<open>getopt\<close> rejected, the program prints no line at all.
\<close>

theorem missing_operand_counterexample:
  "stderr (snd (main sim_libc [] [] empty_fs 0)) = [Vwarnx ''missing file...'']
   \<and> ''missing file...'' \<noteq> ''missing file operand''
   \<and> stderr (snd (main sim_libc [(CHR ''?'', [])] [] empty_fs 0)) = []"
  by (simp add: main_def mkfifo_main_def process_start_def create_stage_def mkfifo_warn_def
      init_ctx_def EXIT_FAILURE_def)

text \<open>
  C5, as the code has it. With no operand the exit status is \<open>EXIT_FAILURE\<close>,
  \<open>mkfifo()\<close> is never called and the file system is as it was; when every option is a
  \<open>-m\<close> whose string compiles, standard error holds the single line \<open>missing file...\<close>
  printed by \<open>vwarnx\<close>.
\<close>

theorem no_operand_fails:
  "fst (main L opts [] fs0 um) = EXIT_FAILURE
   \<and> calls (snd (main L opts [] fs0 um)) = []
   \<and> fs (snd (main L opts [] fs0 um)) = fs0
   \<and> ((\<forall>(c, a) \<in> set opts. c = CHR ''m'' \<and> setmode L 0 a \<noteq> None) \<longrightarrow>
        stderr (snd (main L opts [] fs0 um)) = [Vwarnx ''missing file...''])"
proof -
  have e: "(\<exists>(c, a) \<in> set opts. c \<noteq> CHR ''m'' \<or> setmode L 0 a = None) \<or> [] = ([] :: string list)"
    by simp
  have "stderr (snd (main L opts [] fs0 um)) = [Vwarnx ''missing file...'']"
    if q: "\<forall>(c, a) \<in> set opts. c = CHR ''m'' \<and> setmode L 0 a \<noteq> None"
  proof -
    from q have ok: "\<not> (\<exists>(c, a) \<in> set opts. c \<noteq> CHR ''m'' \<or> setmode L 0 a = None)"
      by (auto simp: case_prod_beta)
    obtain c1 w1 where r: "getopt_loop L opts init_ctx (process_start fs0 um) = (c1, w1)"
      by (cases "getopt_loop L opts init_ctx (process_start fs0 um)")
    have "stderr w1 = []"
      using getopt_loop_quiet [OF q, of init_ctx "process_start fs0 um"] r
      by (simp add: start_fields)
    then show ?thesis
      by (simp add: main_opts_ok(2) [OF ok r refl])
  qed
  with main_no_attempts [OF e, of fs0 um] show ?thesis by blast
qed

theorem no_operand_fails_witness:
  "setmode sim_libc 0 ''123'' \<noteq> None
   \<and> fst (main sim_libc [(CHR ''m'', ''123'')] [] empty_fs 18) = EXIT_FAILURE
   \<and> calls (snd (main sim_libc [(CHR ''m'', ''123'')] [] empty_fs 18)) = []
   \<and> stderr (snd (main sim_libc [(CHR ''m'', ''123'')] [] empty_fs 18))
       = [Vwarnx ''missing file...'']"
proof -
  have h: "\<forall>(c, a) \<in> set [(CHR ''m'', ''123'')]. c = CHR ''m'' \<and> setmode sim_libc 0 a \<noteq> None"
    by (simp add: sim_fields compile_123)
  have g: "setmode sim_libc 0 ''123'' \<noteq> None"
    by (simp add: sim_fields compile_123)
  show ?thesis
    using g h no_operand_fails [of sim_libc "[(CHR ''m'', ''123'')]" empty_fs 18]
    by blast
qed

section \<open>Options\<close>

text \<open>
  C6. An option character other than \<open>m\<close> makes the exit status \<open>EXIT_FAILURE\<close> whatever
  the operands and the other options are, and the loop goes on with the options after it:
  they are handled from the context and the world the options before it left, so the mode
  and the world after the loop are those of the same options without the rejected one.
\<close>

theorem rejected_option_fails_scan_continues:
  assumes "c \<noteq> CHR ''m''"
  shows "fst (main L (pre @ (c, a) # post) operands fs0 um) = EXIT_FAILURE
       \<and> getopt_loop L (pre @ (c, a) # post) ctx w
           = getopt_loop L post ((fst (getopt_loop L pre ctx w))\<lparr>status_code := EXIT_FAILURE\<rparr>)
               (snd (getopt_loop L pre ctx w))
       \<and> mode (fst (getopt_loop L (pre @ (c, a) # post) ctx w))
           = mode (fst (getopt_loop L (pre @ post) ctx w))
       \<and> snd (getopt_loop L (pre @ (c, a) # post) ctx w)
           = snd (getopt_loop L (pre @ post) ctx w)"
proof -
  have bad: "(\<exists>(c', a') \<in> set (pre @ (c, a) # post). c' \<noteq> CHR ''m'' \<or> setmode L 0 a' = None)
      \<or> operands = []"
    using assms by auto
  have 1: "fst (main L (pre @ (c, a) # post) operands fs0 um) = EXIT_FAILURE"
    by (rule main_no_attempts(1) [OF bad])
  obtain c1 w1 where r: "getopt_loop L pre ctx w = (c1, w1)"
    by (cases "getopt_loop L pre ctx w")
  have 2: "getopt_loop L (pre @ (c, a) # post) ctx w
      = getopt_loop L post (c1\<lparr>status_code := EXIT_FAILURE\<rparr>) w1"
    using assms by (simp add: getopt_loop_append r)
  have 3: "getopt_loop L (pre @ post) ctx w = getopt_loop L post c1 w1"
    by (simp add: getopt_loop_append r)
  have "mode (c1\<lparr>status_code := EXIT_FAILURE\<rparr>) = mode c1" by simp
  from getopt_loop_status_irrelevant [OF this, of L post w1] 1 show ?thesis
    by (simp add: 2 3 r)
qed

theorem rejected_option_fails_scan_continues_witness:
  "CHR ''?'' \<noteq> CHR ''m''
   \<and> fst (main sim_libc ([] @ (CHR ''?'', []) # [(CHR ''m'', ''123'')]) [''build/fifo'']
            empty_fs 18) = EXIT_FAILURE
   \<and> mode (fst (getopt_loop sim_libc ([] @ (CHR ''?'', []) # [(CHR ''m'', ''123'')]) init_ctx
                  (process_start empty_fs 18))) = octal [1, 2, 3]
   \<and> cmask (snd (getopt_loop sim_libc ([] @ (CHR ''?'', []) # [(CHR ''m'', ''123'')]) init_ctx
                  (process_start empty_fs 18))) = 0"
proof -
  have h: "CHR ''?'' \<noteq> CHR ''m''" by simp
  have m: "getopt_loop sim_libc ([] @ [(CHR ''m'', ''123'')]) init_ctx (process_start empty_fs 18)
      = (init_ctx\<lparr>mode := octal [1, 2, 3]\<rparr>, (process_start empty_fs 18)\<lparr>cmask := 0\<rparr>)"
    by (simp add: mkfifo_parse_mode_def sim_fields compile_123 octal_def)
  show ?thesis
    using h rejected_option_fails_scan_continues [OF h, of sim_libc "[]" "[]"
        "[(CHR ''m'', ''123'')]" "[''build/fifo'']" empty_fs 18 init_ctx
        "process_start empty_fs 18"]
    by (simp only: m fst_conv snd_conv) simp
qed



section \<open>The status and the file creation mask\<close>

text \<open>
  C8. The status starts as \<open>EXIT_SUCCESS\<close>; \<open>mkfifo_warn\<close> sets it to
  \<open>EXIT_FAILURE\<close>; and a status of \<open>EXIT_FAILURE\<close> is kept by \<open>mkfifo_parse_mode\<close>,
  by \<open>mkfifo_path\<close>, by every further round of the option loop and of the loop over the
  operands, and by the rest of \<open>mkfifo_main\<close>, which then returns it.
\<close>

theorem status_is_sticky:
  "status_code init_ctx = EXIT_SUCCESS
   \<and> status_code (fst (mkfifo_warn ctx e msg w)) = EXIT_FAILURE
   \<and> (status_code ctx = EXIT_FAILURE \<longrightarrow>
        status_code (fst (mkfifo_parse_mode L ctx s w)) = EXIT_FAILURE
        \<and> status_code (fst (mkfifo_path L ctx p w)) = EXIT_FAILURE
        \<and> status_code (fst (create_stage L operands ctx w)) = EXIT_FAILURE)
   \<and> (status_code (fst (getopt_loop L pre ctx w)) = EXIT_FAILURE \<longrightarrow>
        status_code (fst (getopt_loop L (pre @ post) ctx w)) = EXIT_FAILURE)
   \<and> (status_code (fst (path_loop L ps ctx w)) = EXIT_FAILURE \<longrightarrow>
        status_code (fst (path_loop L (ps @ qs) ctx w)) = EXIT_FAILURE)
   \<and> (status_code (fst (getopt_loop L opts init_ctx (process_start fs0 um))) = EXIT_FAILURE \<longrightarrow>
        fst (main L opts operands fs0 um) = EXIT_FAILURE)"
proof (intro conjI impI)
  show "status_code init_ctx = EXIT_SUCCESS"
    by (simp add: init_ctx_def EXIT_SUCCESS_def)
  show "status_code (fst (mkfifo_warn ctx e msg w)) = EXIT_FAILURE"
    by (simp add: mkfifo_warn_def)
next
  assume f: "status_code ctx = EXIT_FAILURE"
  show "status_code (fst (mkfifo_parse_mode L ctx s w)) = EXIT_FAILURE"
    using f by (cases "setmode L 0 s") (simp_all add: parse_mode_None parse_mode_Some)
  from mkfifo_path_step [of L w p ctx] f
  show "status_code (fst (mkfifo_path L ctx p w)) = EXIT_FAILURE"
    by auto
  show "status_code (fst (create_stage L operands ctx w)) = EXIT_FAILURE"
    using f by (simp add: create_stage_def exit_codes)
next
  assume f: "status_code (fst (getopt_loop L pre ctx w)) = EXIT_FAILURE"
  obtain c1 w1 where r: "getopt_loop L pre ctx w = (c1, w1)"
    by (cases "getopt_loop L pre ctx w")
  from f r getopt_loop_status [of L post c1 w1]
  show "status_code (fst (getopt_loop L (pre @ post) ctx w)) = EXIT_FAILURE"
    by (simp add: getopt_loop_append)
next
  assume f: "status_code (fst (path_loop L ps ctx w)) = EXIT_FAILURE"
  obtain c1 w1 where r: "path_loop L ps ctx w = (c1, w1)"
    by (cases "path_loop L ps ctx w")
  from f r have c1: "status_code c1 = EXIT_FAILURE" by simp
  from path_loop_effect [of L qs c1 w1]
  have "status_code (fst (path_loop L qs c1 w1)) = EXIT_FAILURE"
    by (auto simp: c1)
  then show "status_code (fst (path_loop L (ps @ qs) ctx w)) = EXIT_FAILURE"
    by (simp add: path_loop_append r)
next
  assume f: "status_code (fst (getopt_loop L opts init_ctx (process_start fs0 um))) = EXIT_FAILURE"
  then show "fst (main L opts operands fs0 um) = EXIT_FAILURE"
    by (simp add: main_def mkfifo_main_def create_stage_def exit_codes case_prod_beta)
qed

theorem status_is_sticky_witness:
  "status_code (fst (getopt_loop sim_libc [(CHR ''m'', ''abc'')] init_ctx
                       (process_start empty_fs 18))) = EXIT_FAILURE
   \<and> status_code (fst (getopt_loop sim_libc ([(CHR ''m'', ''abc'')] @ [(CHR ''m'', ''123'')])
                       init_ctx (process_start empty_fs 18))) = EXIT_FAILURE
   \<and> fst (main sim_libc [(CHR ''m'', ''abc'')] [''build/fifo''] empty_fs 18) = EXIT_FAILURE"
proof -
  have h: "status_code (fst (getopt_loop sim_libc [(CHR ''m'', ''abc'')] init_ctx
                       (process_start empty_fs 18))) = EXIT_FAILURE"
    by (simp add: mkfifo_parse_mode_def mkfifo_warn_def sim_fields compile_abc)
  note sticky = status_is_sticky [where L = sim_libc and pre = "[(CHR ''m'', ''abc'')]"
      and post = "[(CHR ''m'', ''123'')]" and ctx = init_ctx
      and w = "process_start empty_fs 18" and opts = "[(CHR ''m'', ''abc'')]"
      and ?fs0.0 = empty_fs and um = 18 and operands = "[''build/fifo'']"]
  from sticky h have a: "status_code (fst (getopt_loop sim_libc
      ([(CHR ''m'', ''abc'')] @ [(CHR ''m'', ''123'')]) init_ctx (process_start empty_fs 18)))
      = EXIT_FAILURE"
    by blast
  from sticky h have b: "fst (main sim_libc [(CHR ''m'', ''abc'')] [''build/fifo''] empty_fs 18)
      = EXIT_FAILURE"
    by blast
  from h a b show ?thesis by blast
qed

text \<open>
  C9. With no \<open>-m\<close> among the options the file creation mask at the end is the
  inherited one, and every call of \<open>mkfifo()\<close> is made with the mode 0666 under the
  inherited mask; with a \<open>-m\<close> the mask at the end is 0. On the file system above, the
  node created with no \<open>-m\<close> has the bits of 0666 that the inherited mask does not clear.
\<close>

theorem umask_cleared_only_by_m:
  "((\<forall>(c, a) \<in> set opts. c \<noteq> CHR ''m'') \<longrightarrow>
      cmask (snd (main L opts operands fs0 um)) = um
      \<and> (\<forall>k \<in> set (calls (snd (main L opts operands fs0 um))).
            call_mode k = octal [6, 6, 6] \<and> call_umask k = um))
   \<and> ((\<exists>(c, a) \<in> set opts. c = CHR ''m'') \<longrightarrow>
        cmask (snd (main L opts operands fs0 um)) = 0)
   \<and> nodes (fs (snd (main sim_libc [] [''build/fifo''] empty_fs um')))
       = [(''build/fifo'', octal [6, 6, 6] AND NOT um')]"
proof (intro conjI impI)
  assume no: "\<forall>(c, a) \<in> set opts. c \<noteq> CHR ''m''"
  then have n: "\<not> (\<exists>(c, a) \<in> set opts. c = CHR ''m'')"
    by (auto simp: case_prod_beta)
  show "cmask (snd (main L opts operands fs0 um)) = um"
    using n by (simp add: main_cmask)
  have u: "\<forall>k \<in> set (calls (snd (main L opts operands fs0 um))). call_umask k = um"
    using main_calls_umask [of L opts operands fs0 um] n by simp
  have m: "\<forall>k \<in> set (calls (snd (main L opts operands fs0 um))). call_mode k = octal [6, 6, 6]"
  proof (cases "(\<exists>(c, a) \<in> set opts. c \<noteq> CHR ''m'' \<or> setmode L 0 a = None) \<or> operands = []")
    case True
    show ?thesis by (simp add: main_no_attempts(2) [OF True])
  next
    case False
    then have ok: "\<not> (\<exists>(c, a) \<in> set opts. c \<noteq> CHR ''m'' \<or> setmode L 0 a = None)"
      and ne: "operands \<noteq> []" by simp_all
    obtain c1 w1 where r: "getopt_loop L opts init_ctx (process_start fs0 um) = (c1, w1)"
      by (cases "getopt_loop L opts init_ctx (process_start fs0 um)")
    have "mode c1 = mode init_ctx"
      using getopt_loop_no_m [OF no, of L init_ctx "process_start fs0 um"] r by simp
    with main_attempts(2) [OF ok ne r] show ?thesis by (simp add: init_ctx_mode)
  qed
  from u m show "\<forall>k \<in> set (calls (snd (main L opts operands fs0 um))).
            call_mode k = octal [6, 6, 6] \<and> call_umask k = um"
    by blast
next
  assume "\<exists>(c, a) \<in> set opts. c = CHR ''m''"
  then show "cmask (snd (main L opts operands fs0 um)) = 0"
    by (simp add: main_cmask)
next
  show "nodes (fs (snd (main sim_libc [] [''build/fifo''] empty_fs um')))
       = [(''build/fifo'', octal [6, 6, 6] AND NOT um')]"
    by (simp add: run_default octal_def)
qed

theorem umask_cleared_only_by_m_witness:
  "cmask (snd (main sim_libc [] [''build/fifo''] empty_fs (octal [0, 2, 2]))) = octal [0, 2, 2]
   \<and> cmask (snd (main sim_libc [(CHR ''m'', ''123'')] [''build/fifo''] empty_fs (octal [0, 2, 2])))
       = 0
   \<and> nodes (fs (snd (main sim_libc [] [''build/fifo''] empty_fs (octal [0, 2, 2]))))
       = [(''build/fifo'', octal [6, 4, 4])]
   \<and> nodes (fs (snd (main sim_libc [] [''build/fifo''] empty_fs (octal [0, 0, 2]))))
       = [(''build/fifo'', octal [6, 6, 4])]"
proof -
  have h1: "\<forall>(c, a) \<in> set ([] :: getopt_result list). c \<noteq> CHR ''m''" by simp
  have h2: "\<exists>(c, a) \<in> set [(CHR ''m'', ''123'')]. c = CHR ''m''" by simp
  have v1: "octal [6, 6, 6] AND NOT (octal [0, 2, 2]) = octal [6, 4, 4]"
    by (simp add: octal_def)
  have v2: "octal [6, 6, 6] AND NOT (octal [0, 0, 2]) = octal [6, 6, 4]"
    by (simp add: octal_def)
  from h1 umask_cleared_only_by_m [of "[]" sim_libc "[''build/fifo'']" empty_fs "octal [0, 2, 2]"
      "octal [0, 2, 2]"]
  have a: "cmask (snd (main sim_libc [] [''build/fifo''] empty_fs (octal [0, 2, 2])))
      = octal [0, 2, 2]"
    and c: "nodes (fs (snd (main sim_libc [] [''build/fifo''] empty_fs (octal [0, 2, 2]))))
       = [(''build/fifo'', octal [6, 6, 6] AND NOT (octal [0, 2, 2]))]"
    by blast+
  from h2 umask_cleared_only_by_m [of "[(CHR ''m'', ''123'')]" sim_libc "[''build/fifo'']"
      empty_fs "octal [0, 2, 2]" "octal [0, 0, 2]"]
  have b: "cmask (snd (main sim_libc [(CHR ''m'', ''123'')] [''build/fifo''] empty_fs
      (octal [0, 2, 2]))) = 0"
    and d: "nodes (fs (snd (main sim_libc [] [''build/fifo''] empty_fs (octal [0, 0, 2]))))
       = [(''build/fifo'', octal [6, 6, 6] AND NOT (octal [0, 0, 2]))]"
    by blast+
  from a b c d show ?thesis
    by (simp only: v1 v2 simp_thms)
qed

end
